theory Spec2Isabelle
  imports Main "HOL-Library.Sublist"
begin

section \<open>Paths: the functions of os.path the commands call\<close>

text \<open>
  A Python \<open>str\<close> is a \<open>string\<close> (a list of characters); the few characters outside
  ASCII that occur in message literals are written as their UTF-8 bytes. The functions
  below follow \<open>posixpath\<close>: \<open>dirname\<close>, \<open>basename\<close>, \<open>join\<close>, \<open>normpath\<close>,
  \<open>abspath\<close> and \<open>relpath\<close>.
\<close>

abbreviation sep :: char where
  "sep \<equiv> CHR ''/''"

definition startswith_sep :: "string \<Rightarrow> bool" where
  "startswith_sep p = (case p of [] \<Rightarrow> False | c # _ \<Rightarrow> c = sep)"

definition endswith_sep :: "string \<Rightarrow> bool" where
  "endswith_sep p = (p \<noteq> [] \<and> last p = sep)"

text \<open>\<open>p.rstrip('/')\<close>: the trailing separators are dropped.\<close>

definition rstrip_sep :: "string \<Rightarrow> string" where
  "rstrip_sep p = rev (dropWhile (\<lambda>c. c = sep) (rev p))"

text \<open>
  \<open>p.rfind('/') + 1\<close>: the length of the longest prefix of \<open>p\<close> that ends in a
  separator, 0 when \<open>p\<close> has none.
\<close>

definition rfind_sep1 :: "string \<Rightarrow> nat" where
  "rfind_sep1 p = length (dropWhile (\<lambda>c. c \<noteq> sep) (rev p))"

text \<open>
  \<^verbatim>\<open>
  def dirname(p):
      i = p.rfind('/') + 1
      head = p[:i]
      if head and head != '/'*len(head):
          head = head.rstrip('/')
      return head
  \<close>
\<close>

definition dirname :: "string \<Rightarrow> string" where
  "dirname p =
     (let i = rfind_sep1 p;
          head = take i p
      in if head \<noteq> [] \<and> head \<noteq> replicate (length head) sep
         then rstrip_sep head else head)"

text \<open>\<open>basename(p) = p[p.rfind('/') + 1:]\<close>\<close>

definition basename :: "string \<Rightarrow> string" where
  "basename p = drop (rfind_sep1 p) p"

text \<open>
  \<open>join(a, b)\<close> with one component: an absolute \<open>b\<close> replaces \<open>a\<close>; otherwise \<open>b\<close>
  is appended, after a separator unless \<open>a\<close> is empty or already ends in one.
\<close>

definition join :: "string \<Rightarrow> string \<Rightarrow> string" where
  "join a b =
     (if startswith_sep b then b
      else if a = [] \<or> endswith_sep a then a @ b
      else a @ [sep] @ b)"

text \<open>\<open>s.split('/')\<close> and \<open>j.join(parts)\<close> of \<open>str\<close>.\<close>

fun split_sep :: "string \<Rightarrow> string list" where
  "split_sep [] = [[]]"
| "split_sep (c # cs) =
     (if c = sep then [] # split_sep cs
      else (case split_sep cs of
              [] \<Rightarrow> [[c]]
            | w # ws \<Rightarrow> (c # w) # ws))"

fun str_join :: "string \<Rightarrow> string list \<Rightarrow> string" where
  "str_join j [] = []"
| "str_join j [x] = x"
| "str_join j (x # y # zs) = x @ j @ str_join j (y # zs)"

text \<open>
  One turn of the loop of \<open>normpath\<close> over the components: empty and \<open>.\<close> components
  are skipped, \<open>..\<close> removes the last kept component where there is one to remove.
\<close>

definition normpath_step :: "nat \<Rightarrow> string list \<Rightarrow> string \<Rightarrow> string list" where
  "normpath_step initial_slashes new_comps part =
     (if part = [] \<or> part = ''.'' then new_comps
      else if part \<noteq> ''..'' \<or> (initial_slashes = 0 \<and> new_comps = [])
              \<or> (new_comps \<noteq> [] \<and> last new_comps = ''..'')
           then new_comps @ [part]
      else if new_comps \<noteq> [] then butlast new_comps
      else new_comps)"

definition normpath :: "string \<Rightarrow> string" where
  "normpath p =
     (if p = [] then ''.''
      else
        let initial_slashes =
              (if startswith_sep p
               then (if take 2 p = ''//'' \<and> take 3 p \<noteq> ''///'' then 2 else 1)
               else (0::nat));
            comps = foldl (normpath_step initial_slashes) [] (split_sep p);
            q = replicate initial_slashes sep @ str_join ''/'' comps
        in if q = [] then ''.'' else q)"

text \<open>\<open>abspath\<close> joins a relative path to the working directory of the process.\<close>

definition abspath :: "string \<Rightarrow> string \<Rightarrow> string" where
  "abspath cwd p = normpath (if startswith_sep p then p else join cwd p)"

datatype exn = ValueError | OSError | AttributeError

text \<open>
  \<open>relpath(path, start)\<close> raises \<open>ValueError\<close> on the empty path; otherwise both paths
  are made absolute, their common leading components are dropped, and the rest of
  \<open>start\<close> is climbed with \<open>..\<close>.
\<close>

definition relpath :: "string \<Rightarrow> string \<Rightarrow> string \<Rightarrow> exn + string" where
  "relpath cwd p start =
     (if p = [] then Inl ValueError
      else
        let start_list = filter (\<lambda>x. x \<noteq> []) (split_sep (abspath cwd start));
            path_list = filter (\<lambda>x. x \<noteq> []) (split_sep (abspath cwd p));
            i = length (longest_common_prefix start_list path_list);
            rel_list = replicate (length start_list - i) ''..'' @ drop i path_list
        in (case rel_list of
              [] \<Rightarrow> Inr ''.''
            | x # xs \<Rightarrow> Inr (foldl join x xs)))"

section \<open>The data model\<close>

text \<open>
  Modelled from the spec: the types \<open>Mode\<close>, \<open>Node\<close> and \<open>State\<close> of the types module,
  which is not among the sources. A node has its absolute path, a set of mode flags and,
  once loaded, its children by name.
\<close>

datatype Mode = FILE | FOLDER | SYMLINK | EXECUTABLE

datatype Node = Node (path: string) (mode: "Mode set") (children: "(string \<times> Node) list option")

text \<open>
  A snapshot: the displayed root, the expansion set \<open>index\<close>, the selection, the two
  flags, and the derived pair: \<open>lookup\<close> (the flat index, one node per visible row) and
  \<open>rendered\<close> (the display lines).
\<close>

record State =
  root :: Node
  index :: "string set"
  selection :: "string set"
  show_hidden :: bool
  follow :: bool
  lookup :: "Node list"
  rendered :: "string list"

section \<open>The editor and the platform\<close>

text \<open>
  What the editor answers during one command: the cursor row of the current window
  (rows count from 1), the rows of the marks \<open><\<close> and \<open>>\<close> of the current buffer, the
  text typed at an input prompt and the choice made at a confirmation prompt.
\<close>

record Nvim2 =
  cursor_row :: int
  mark_lo :: int
  mark_hi :: int
  input_reply :: string
  confirm_reply :: int

text \<open>
  The calls a command makes on its collaborators, in the order it makes them: the
  messages printed, the prompts shown, the state transition with its keyword arguments
  (\<open>index\<close>, \<open>paths\<close>, \<open>selection\<close>, \<open>show_hidden\<close>, \<open>follow\<close>; \<open>None\<close> for one left
  out), the redraw with the lines it is given (made only where \<open>_redraw\<close> is awaited),
  and the buffers to close.
\<close>

datatype event =
    Print string bool
  | Input string "string option"
  | Confirm string string int
  | Forward "string set option" "string set option" "string set option" "bool option" "bool option"
  | Redraw "string list"
  | KillBuffers "string set"

text \<open>
  The platform under the commands. The file system is a value of type \<open>'fs\<close>; an action
  on it returns the exception it raised, if any, and the file system it left behind.
  \<open>p_iter\<close> is the order in which a Python set is iterated; \<open>p_refresh\<close> and \<open>p_render\<close>
  are the tree builder and the renderer the state transition delegates to.
\<close>

record ('fs, 'cfg) platform =
  p_cwd :: string
  p_iter :: "string set \<Rightarrow> string list"
  fs_exists :: "'fs \<Rightarrow> string \<Rightarrow> bool"
  fs_new :: "string \<Rightarrow> 'fs \<Rightarrow> exn option \<times> 'fs"
  fs_rename :: "string \<Rightarrow> string \<Rightarrow> 'fs \<Rightarrow> exn option \<times> 'fs"
  fs_cut :: "string \<Rightarrow> string \<Rightarrow> 'fs \<Rightarrow> exn option \<times> 'fs"
  fs_copy :: "string \<Rightarrow> string \<Rightarrow> 'fs \<Rightarrow> exn option \<times> 'fs"
  fs_remove :: "string list \<Rightarrow> 'fs \<Rightarrow> exn option \<times> 'fs"
  p_refresh :: "'cfg \<Rightarrow> 'fs \<Rightarrow> Node \<Rightarrow> string set \<Rightarrow> string set \<Rightarrow> bool \<Rightarrow> Node"
  p_render :: "'cfg \<Rightarrow> Node \<Rightarrow> string set \<Rightarrow> bool \<Rightarrow> (Node \<times> string) list"

text \<open>
  What a command hands back: the state it returns or the exception that leaves it, the
  file system afterwards, and the calls it made.
\<close>

type_synonym 'fs outcome = "(exn + State) \<times> 'fs \<times> event list"

section \<open>The path utilities of the fs module\<close>

text \<open>
  Modelled from the spec: \<open>ancestors\<close>, \<open>is_parent\<close> and \<open>unify\<close> of the fs module,
  which is not among the sources. \<open>ancestors(path)\<close> is the sequence of ancestor paths
  from the immediate parent up to the file system root (the path that is its own
  parent).
\<close>

function ancestors :: "string \<Rightarrow> string list" where
  "ancestors p = (if dirname p = p then [] else dirname p # ancestors (dirname p))"
  by pat_completeness auto
termination
proof (relation "measure length")
  show "wf (measure length)"
    by simp
next
  fix p :: string
  assume moved: "dirname p \<noteq> p"
  have strip: "prefix (rstrip_sep h) h" for h
  proof -
    have "h = rev (takeWhile (\<lambda>c. c = sep) (rev h) @ dropWhile (\<lambda>c. c = sep) (rev h))"
      by (simp only: takeWhile_dropWhile_id rev_rev_ident)
    then have "h = rstrip_sep h @ rev (takeWhile (\<lambda>c. c = sep) (rev h))"
      by (simp only: rev_append rstrip_sep_def)
    then show ?thesis
      by (metis prefixI)
  qed
  have whole: "prefix (take (rfind_sep1 p) p) p"
    by (rule take_is_prefix)
  from whole strip[of "take (rfind_sep1 p) p"]
  have "prefix (rstrip_sep (take (rfind_sep1 p) p)) p"
    by (rule prefix_order.trans[rotated])
  with whole have "prefix (dirname p) p"
    by (simp add: dirname_def Let_def)
  with moved have "length (dirname p) < length p"
    by (metis prefix_length_le prefix_length_prefix le_neq_implies_less prefix_order.eq_iff)
  then show "(dirname p, p) \<in> measure length"
    by simp
qed

declare ancestors.simps [simp del]

text \<open>
  Modelled from the spec: \<open>is_parent(parent, child)\<close> is true iff \<open>child\<close> is a strict
  descendant of \<open>parent\<close> in the path hierarchy, by comparison of paths only.
\<close>

definition is_parent :: "string \<Rightarrow> string \<Rightarrow> bool" where
  "is_parent parent child = (parent \<in> set (ancestors child))"

text \<open>
  Modelled from the spec: \<open>unify(paths)\<close> returns the subset of \<open>paths\<close> that are not
  a descendant of another member of \<open>paths\<close>.
\<close>

definition unify :: "string set \<Rightarrow> string set" where
  "unify paths = {p \<in> paths. \<not> (\<exists>q \<in> paths. is_parent q p)}"

section \<open>The state module\<close>

text \<open>
  Modelled from the spec: \<open>index(state, row)\<close> of the state module, which is not among
  the sources: the node at the zero-based \<open>row\<close> of the flat index, or none if the row
  is out of range. (The record field \<open>index\<close> is the expansion set, so the function is
  named \<open>index_at\<close> here.)
\<close>

definition index_at :: "State \<Rightarrow> int \<Rightarrow> Node option" where
  "index_at state row =
     (if 0 \<le> row \<and> row < int (length (lookup state))
      then Some (lookup state ! nat row) else None)"

text \<open>
  What a handler holds in its variable \<open>node\<close>. \<open>_index\<close> is declared \<open>async def\<close>, so
  a call of it returns a coroutine object; its body runs, and yields the
  \<open>Optional[Node]\<close>, only when the coroutine is awaited. A coroutine object is truthy
  and has no attribute \<open>path\<close> or \<open>mode\<close>: reading one raises \<open>AttributeError\<close>. A
  node is truthy as well and has both attributes.
\<close>

datatype node_obj = Plain Node | Coroutine "Node option"

definition truthy :: "node_obj \<Rightarrow> bool" where
  "truthy v = (case v of Plain n \<Rightarrow> True | Coroutine r \<Rightarrow> True)"

definition attr_path :: "node_obj \<Rightarrow> exn + string" where
  "attr_path v = (case v of Plain n \<Rightarrow> Inr (path n) | Coroutine r \<Rightarrow> Inl AttributeError)"

definition attr_mode :: "node_obj \<Rightarrow> exn + Mode set" where
  "attr_mode v = (case v of Plain n \<Rightarrow> Inr (mode n) | Coroutine r \<Rightarrow> Inl AttributeError)"

text \<open>
  Modelled from the spec: \<open>is_dir(node)\<close> of the state module: a node is a directory
  when its mode contains \<open>FOLDER\<close>; the test reads \<open>node.mode\<close>.
\<close>

definition is_dir :: "node_obj \<Rightarrow> exn + bool" where
  "is_dir v = (case attr_mode v of Inl e \<Rightarrow> Inl e | Inr m \<Rightarrow> Inr (FOLDER \<in> m))"

text \<open>
  Modelled from the spec: the transition \<open>forward\<close> of the state module (the spec's
  \<open>advance\<close>). A keyword that is left out keeps the value of the previous snapshot;
  \<open>paths\<close>, when given, is the invalidation set handed to the tree builder; the flat
  index and the rendered lines are recomputed from the new root. The input snapshot is
  not changed.
\<close>

definition forward ::
  "('fs, 'cfg) platform \<Rightarrow> 'fs \<Rightarrow> State \<Rightarrow> 'cfg \<Rightarrow> string set option \<Rightarrow> string set option \<Rightarrow>
     string set option \<Rightarrow> bool option \<Rightarrow> bool option \<Rightarrow> State" where
  "forward P fs state settings index_kw paths_kw selection_kw show_hidden_kw follow_kw =
     (let new_index = (case index_kw of None \<Rightarrow> index state | Some i \<Rightarrow> i);
          new_selection = (case selection_kw of None \<Rightarrow> selection state | Some s \<Rightarrow> s);
          new_hidden = (case show_hidden_kw of None \<Rightarrow> show_hidden state | Some h \<Rightarrow> h);
          new_follow = (case follow_kw of None \<Rightarrow> follow state | Some f \<Rightarrow> f);
          new_root = (case paths_kw of
                        None \<Rightarrow> root state
                      | Some ps \<Rightarrow> p_refresh P settings fs (root state) ps new_index new_hidden);
          rows = p_render P settings new_root new_index new_hidden
      in \<lparr>root = new_root, index = new_index, selection = new_selection,
          show_hidden = new_hidden, follow = new_follow,
          lookup = map fst rows, rendered = map snd rows\<rparr>)"

section \<open>The commands\<close>

text \<open>
  The handlers are coroutines that run one at a time on a single logical thread. Where
  the source awaits a call (\<open>await remove(unified)\<close>, \<open>await _operation(...)\<close>) the call
  is modelled as an ordinary call. Where it does not, the call of an \<open>async def\<close> only
  builds the coroutine object: every handler calls \<open>_index\<close> without \<open>await\<close> and so
  holds a coroutine in \<open>node\<close>, and every call of \<open>_redraw\<close> but the one in \<open>c_open\<close> is
  left un-awaited, so its body never runs and no redraw is made. Each handler takes the
  platform and the editor's answers, the file system, the snapshot and the settings.
\<close>

text \<open>
  \<open>_index\<close>, as the handlers call it: the coroutine object, holding the node under the
  cursor that awaiting it would yield (the editor counts rows from 1).
\<close>

definition priv_index :: "Nvim2 \<Rightarrow> State \<Rightarrow> node_obj" where
  "priv_index nvim state = Coroutine (index_at state (cursor_row nvim - 1))"

text \<open>
  \<open>_indices\<close>: in visual mode the rows \<open>range(r1 - 1, r2)\<close> between the two marks, each
  looked up, the rows without a node skipped; otherwise the node under the cursor, if
  any.
\<close>

definition priv_indices :: "Nvim2 \<Rightarrow> State \<Rightarrow> bool \<Rightarrow> Node list" where
  "priv_indices nvim state is_visual =
     (if is_visual
      then List.map_filter (index_at state) [mark_lo nvim - 1 .. mark_hi nvim - 1]
      else (case index_at state (cursor_row nvim - 1) of
              Some node \<Rightarrow> [node]
            | None \<Rightarrow> []))"

text \<open>\<open>_display_path\<close>: the path relative to the root, newlines escaped.\<close>

definition priv_display_path :: "('fs, 'cfg) platform \<Rightarrow> string \<Rightarrow> State \<Rightarrow> exn + string" where
  "priv_display_path P p state =
     (case relpath (p_cwd P) p (path (root state)) of
        Inl e \<Rightarrow> Inl e
      | Inr raw \<Rightarrow>
          Inr (concat (map (\<lambda>c. if c = CHR 0x0A then [CHR 0x5C, CHR ''n''] else [c]) raw)))"

text \<open>Evaluating a sequence of results in order: the first exception leaves.\<close>

fun collect :: "(exn + 'a) list \<Rightarrow> exn + 'a list" where
  "collect [] = Inr []"
| "collect (x # xs) =
     (case x of
        Inl e \<Rightarrow> Inl e
      | Inr v \<Rightarrow> (case collect xs of Inl e \<Rightarrow> Inl e | Inr vs \<Rightarrow> Inr (v # vs)))"

text \<open>
  \<^verbatim>\<open>
  try:
      body
  finally:
      ...
      return new_state
  \<close>
  A \<open>return\<close> in the \<open>finally\<close> block ends the function with that value, whether
  the body raised or not: Python drops the pending exception.
\<close>

definition finally_return :: "exn option \<Rightarrow> State \<Rightarrow> exn + State" where
  "finally_return pending new_state =
     (case pending of None \<Rightarrow> Inr new_state | Some e \<Rightarrow> Inr new_state)"

text \<open>The symbols that open the messages, as UTF-8 bytes.\<close>

definition warning_sign :: string where
  "warning_sign = [CHR 0xE2, CHR 0x9A, CHR 0xA0, CHR 0xEF, CHR 0xB8, CHR 0x8F]"

definition pencil_sign :: string where
  "pencil_sign = [CHR 0xE2, CHR 0x9C, CHR 0x8F, CHR 0xEF, CHR 0xB8, CHR 0x8F]"

definition wastebasket_sign :: string where
  "wastebasket_sign = [CHR 0xF0, CHR 0x9F, CHR 0x97, CHR 0x91]"

text \<open>
  The expression \<open>node.path if is_dir(node) else dirname(node.path)\<close> of \<open>c_new\<close> and
  \<open>_find_dest\<close>: the test is evaluated first, then the arm it selects.
\<close>

definition directory_of :: "node_obj \<Rightarrow> exn + string" where
  "directory_of node =
     (case is_dir node of
        Inl e \<Rightarrow> Inl e
      | Inr d \<Rightarrow>
          (case attr_path node of
             Inl e \<Rightarrow> Inl e
           | Inr p \<Rightarrow> Inr (if d then p else dirname p)))"

text \<open>
  \<open>c_collapse\<close>. The test \<open>node and Mode.FOLDER in node.mode\<close> reads \<open>node.mode\<close> when
  \<open>node\<close> is truthy; the comprehension reads \<open>node.path\<close> once for each member of the
  expansion set.
\<close>

definition c_collapse ::
  "('fs, 'cfg) platform \<Rightarrow> Nvim2 \<Rightarrow> 'fs \<Rightarrow> State \<Rightarrow> 'cfg \<Rightarrow> 'fs outcome" where
  "c_collapse P nvim fs state settings =
     (let node = priv_index nvim state
      in if truthy node then
           (case attr_mode node of
              Inl e \<Rightarrow> (Inl e, fs, [])
            | Inr m \<Rightarrow>
                if FOLDER \<in> m then
                  (case (if index state = {} then Inr {}
                         else (case attr_path node of
                                 Inl e \<Rightarrow> Inl e
                               | Inr p \<Rightarrow> Inr {i \<in> index state. is_parent p i})) of
                     Inl e \<Rightarrow> (Inl e, fs, [])
                   | Inr paths \<Rightarrow>
                       let index' = index state - paths;
                           new_state =
                             forward P fs state settings (Some index') (Some paths) None None None
                       in (Inr new_state, fs, [Forward (Some index') (Some paths) None None None]))
                else (Inr state, fs, []))
         else (Inr state, fs, []))"

definition c_new ::
  "('fs, 'cfg) platform \<Rightarrow> Nvim2 \<Rightarrow> 'fs \<Rightarrow> State \<Rightarrow> 'cfg \<Rightarrow> 'fs outcome" where
  "c_new P nvim fs state settings =
     (let node = priv_index nvim state
      in if truthy node then
           (case directory_of node of
              Inl e \<Rightarrow> (Inl e, fs, [])
            | Inr parent \<Rightarrow>
                let asked = Input (pencil_sign @ ''  :'') None;
                    child = input_reply nvim;
                    name = join parent child
                in if fs_exists P fs name then
                     (Inr state, fs, [asked, Print (warning_sign @ ''  Exists: '' @ name) True])
                   else
                     let (pending, fs') = fs_new P name fs;
                         index' = index state \<union> set (ancestors name);
                         new_state =
                           forward P fs' state settings (Some index') (Some {parent}) None None None
                     in (finally_return pending new_state, fs',
                         [asked, Forward (Some index') (Some {parent}) None None None]))
         else (Inr state, fs, []))"

definition c_rename ::
  "('fs, 'cfg) platform \<Rightarrow> Nvim2 \<Rightarrow> 'fs \<Rightarrow> State \<Rightarrow> 'cfg \<Rightarrow> 'fs outcome" where
  "c_rename P nvim fs state settings =
     (let node = priv_index nvim state
      in if truthy node then
           (case attr_path node of
              Inl e \<Rightarrow> (Inl e, fs, [])
            | Inr prev_name \<Rightarrow>
                let parent = path (root state)
                in (case relpath (p_cwd P) prev_name parent of
                      Inl e \<Rightarrow> (Inl e, fs, [])
                    | Inr rel_path \<Rightarrow>
                        let asked = Input (pencil_sign @ ''  :'') (Some rel_path);
                            child = input_reply nvim;
                            new_name = join parent child;
                            new_parent = dirname new_name
                        in if fs_exists P fs new_name then
                             (Inr state, fs,
                              [asked, Print (warning_sign @ ''  Exists: '' @ new_name) True])
                           else
                             let (pending, fs') = fs_rename P prev_name new_name fs;
                                 paths = {parent, new_parent} \<union> set (ancestors new_parent);
                                 index' = index state \<union> paths;
                                 new_state =
                                   forward P fs' state settings (Some index') (Some paths)
                                     None None None
                             in (finally_return pending new_state, fs',
                                 [asked, Forward (Some index') (Some paths) None None None,
                                  KillBuffers {prev_name}])))
         else (Inr state, fs, []))"

text \<open>
  \<open>c_delete\<close>. In \<open>state.selection or ({node.path} if node else set())\<close> the right
  operand is evaluated only when the selection is empty.
\<close>

definition c_delete ::
  "('fs, 'cfg) platform \<Rightarrow> Nvim2 \<Rightarrow> 'fs \<Rightarrow> State \<Rightarrow> 'cfg \<Rightarrow> 'fs outcome" where
  "c_delete P nvim fs state settings =
     (let node = priv_index nvim state
      in (case (if selection state \<noteq> {} then Inr (selection state)
                else if truthy node then
                  (case attr_path node of Inl e \<Rightarrow> Inl e | Inr p \<Rightarrow> Inr {p})
                else Inr {}) of
            Inl e \<Rightarrow> (Inl e, fs, [])
          | Inr chosen \<Rightarrow>
              if chosen \<noteq> {} then
                let unified = p_iter P (unify chosen)
                in (case collect (map (\<lambda>p. priv_display_path P p state) unified) of
                      Inl e \<Rightarrow> (Inl e, fs, [])
                    | Inr shown \<Rightarrow>
                        let asked =
                              Confirm (wastebasket_sign @ ''  '' @ str_join [CHR 0x0A] shown @ ''?'')
                                (''&Yes'' @ [CHR 0x0A] @ ''&No'' @ [CHR 0x0A]) 2
                        in if confirm_reply nvim = 1 then
                             let (pending, fs') = fs_remove P unified fs;
                                 paths = dirname ` set unified;
                                 new_state =
                                   forward P fs' state settings None (Some paths) None None None
                             in (finally_return pending new_state, fs',
                                 [asked, Forward None (Some paths) None None None,
                                  KillBuffers chosen])
                           else (Inr state, fs, [asked]))
              else (Inr state, fs, [])))"

text \<open>\<open>_find_dest\<close>: the source keeps its name under the directory of the target node.\<close>

definition priv_find_dest :: "string \<Rightarrow> node_obj \<Rightarrow> exn + string" where
  "priv_find_dest src node =
     (let name = basename src
      in (case directory_of node of
            Inl e \<Rightarrow> Inl e
          | Inr parent \<Rightarrow> Inr (join parent name)))"

text \<open>The loop over the planned operations stops at the first action that raises.\<close>

fun run_actions ::
  "(string \<Rightarrow> string \<Rightarrow> 'fs \<Rightarrow> exn option \<times> 'fs) \<Rightarrow> (string \<times> string) list \<Rightarrow> 'fs \<Rightarrow> exn option \<times> 'fs" where
  "run_actions action [] fs = (None, fs)"
| "run_actions action ((src, dest) # rest) fs =
     (case action src dest fs of
        (Some e, fs') \<Rightarrow> (Some e, fs')
      | (None, fs') \<Rightarrow> run_actions action rest fs')"

text \<open>
  \<open>_operation\<close>. The test \<open>selection and node\<close> holds when the selection is non-empty
  and \<open>node\<close> is truthy. The dictionary \<open>operations\<close> is built by calling \<open>_find_dest\<close>
  for each member of the selection in the order it is iterated (each member once); it
  is the list of its items in that order. The message of the last branch is not an
  f-string: it prints the braces and the word \<open>name\<close> as they stand.
\<close>

definition priv_operation ::
  "('fs, 'cfg) platform \<Rightarrow> Nvim2 \<Rightarrow> 'fs \<Rightarrow> State \<Rightarrow> 'cfg \<Rightarrow> string \<Rightarrow>
     (string \<Rightarrow> string \<Rightarrow> 'fs \<Rightarrow> exn option \<times> 'fs) \<Rightarrow> 'fs outcome" where
  "priv_operation P nvim fs state settings name action =
     (let node = priv_index nvim state
      in if selection state \<noteq> {} \<and> truthy node then
           (case collect (map (\<lambda>src. case priv_find_dest src node of
                                        Inl e \<Rightarrow> Inl e
                                      | Inr dest \<Rightarrow> Inr (src, dest))
                            (p_iter P (selection state))) of
              Inl e \<Rightarrow> (Inl e, fs, [])
            | Inr operations \<Rightarrow>
                let pre_existing = filter (\<lambda>(s, d). fs_exists P fs d) operations
                in if pre_existing \<noteq> [] then
                     (case collect (map (\<lambda>(s, d).
                              case priv_display_path P s state of
                                Inl e \<Rightarrow> Inl e
                              | Inr ds \<Rightarrow> (case priv_display_path P d state of
                                            Inl e \<Rightarrow> Inl e
                                          | Inr dd \<Rightarrow> Inr (ds @ '' -> '' @ dd))) pre_existing) of
                        Inl e \<Rightarrow> (Inl e, fs, [])
                      | Inr parts \<Rightarrow>
                          (Inr state, fs,
                           [Print (warning_sign @ ''  -- '' @ name
                                     @ '': path(s) already exist! :: '' @ str_join '', '' parts)
                              True]))
                   else
                     let (pending, fs') = run_actions action operations fs;
                         paths = set (map snd operations)
                                   \<union> set (map (\<lambda>(src, dest). dirname src) operations);
                         index' = index state \<union> paths;
                         new_state =
                           forward P fs' state settings (Some index') (Some paths) None None None
                     in (finally_return pending new_state, fs',
                         [Forward (Some index') (Some paths) None None None,
                          KillBuffers (selection state)]))
         else
           (Inr state, fs, [Print (warning_sign @ ''  -- {name}: nothing selected!'') True]))"

definition c_cut ::
  "('fs, 'cfg) platform \<Rightarrow> Nvim2 \<Rightarrow> 'fs \<Rightarrow> State \<Rightarrow> 'cfg \<Rightarrow> 'fs outcome" where
  "c_cut P nvim fs state settings =
     priv_operation P nvim fs state settings ''Cut'' (fs_cut P)"

definition c_copy ::
  "('fs, 'cfg) platform \<Rightarrow> Nvim2 \<Rightarrow> 'fs \<Rightarrow> State \<Rightarrow> 'cfg \<Rightarrow> 'fs outcome" where
  "c_copy P nvim fs state settings =
     priv_operation P nvim fs state settings ''Copy'' (fs_copy P)"

section \<open>A sample platform and sample snapshots\<close>

text \<open>
  Concrete inputs on which the theorems below are evaluated: nodes, a platform whose
  file system is the set of the paths that exist and whose sets are iterated in the
  order of a given list, snapshots with three visible rows, and an editor.
\<close>

definition folder_node :: "string \<Rightarrow> Node" where
  "folder_node p = Node p {FOLDER} None"

definition file_node :: "string \<Rightarrow> Node" where
  "file_node p = Node p {FILE} None"

definition sample_platform :: "string list \<Rightarrow> (string set, unit) platform" where
  "sample_platform order =
     \<lparr>p_cwd = ''/'',
      p_iter = (\<lambda>S. filter (\<lambda>x. x \<in> S) order),
      fs_exists = (\<lambda>fs p. p \<in> fs),
      fs_new = (\<lambda>name fs. (None, insert name fs)),
      fs_rename = (\<lambda>src dst fs. (None, insert dst (fs - {src}))),
      fs_cut = (\<lambda>src dst fs. (None, insert dst (fs - {src}))),
      fs_copy = (\<lambda>src dst fs. (None, insert dst fs)),
      fs_remove = (\<lambda>ps fs. (None, fs - set ps)),
      p_refresh = (\<lambda>cfg fs node ps idx hidden. node),
      p_render = (\<lambda>cfg node idx hidden. [(node, path node)])\<rparr>"

definition sample_state :: State where
  "sample_state =
     \<lparr>root = folder_node ''/r'',
      index = {''/r'', ''/r/a'', ''/r/a/b''},
      selection = {},
      show_hidden = False,
      follow = False,
      lookup = [folder_node ''/r'', folder_node ''/r/a'', file_node ''/r/c''],
      rendered = [''r'', ''a'', ''c'']\<rparr>"

definition sample_nvim :: "int \<Rightarrow> string \<Rightarrow> int \<Rightarrow> Nvim2" where
  "sample_nvim row reply choice =
     \<lparr>cursor_row = row, mark_lo = 2, mark_hi = 7, input_reply = reply, confirm_reply = choice\<rparr>"

definition crowded_fs :: "string set" where
  "crowded_fs = {''/r/a'', ''/r/c'', ''/r/a/b'', ''/r/a/x'', ''/r/a/y'', ''/r/x'', ''/r/y''}"

definition picked_state :: State where
  "picked_state = sample_state\<lparr>selection := {''/r/a/x'', ''/r/a/y''}\<rparr>"

definition picked_platform :: "(string set, unit) platform" where
  "picked_platform = sample_platform [''/r/a/x'', ''/r/a/y'']"

definition nested_state :: State where
  "nested_state = sample_state\<lparr>selection := {''/r/a'', ''/r/a/b''}\<rparr>"

definition nested_platform :: "(string set, unit) platform" where
  "nested_platform = sample_platform [''/r/a'', ''/r/a/b'']"

definition failing_platform :: "(string set, unit) platform" where
  "failing_platform = nested_platform\<lparr>fs_remove := (\<lambda>ps fs. (Some OSError, fs))\<rparr>"

definition attic_state :: State where
  "attic_state =
     \<lparr>root = folder_node ''/a'',
      index = {''/a''},
      selection = {},
      show_hidden = False,
      follow = False,
      lookup = [folder_node ''/a''],
      rendered = [''a'']\<rparr>"

definition deep_state :: State where
  "deep_state =
     sample_state\<lparr>lookup := [folder_node ''/r'', folder_node ''/r/a'', file_node ''/r/a/f''],
                  rendered := [''r'', ''a'', ''f'']\<rparr>"

section \<open>Facts about paths\<close>

lemma rstrip_sep_prefix: "prefix (rstrip_sep h) h"
proof -
  have "h = rev (takeWhile (\<lambda>c. c = sep) (rev h) @ dropWhile (\<lambda>c. c = sep) (rev h))"
    by (simp only: takeWhile_dropWhile_id rev_rev_ident)
  then have "h = rstrip_sep h @ rev (takeWhile (\<lambda>c. c = sep) (rev h))"
    by (simp only: rev_append rstrip_sep_def)
  then show ?thesis by (metis prefixI)
qed

lemma dirname_prefix: "prefix (dirname p) p"
proof -
  have whole: "prefix (take (rfind_sep1 p) p) p"
    by (rule take_is_prefix)
  have "prefix (rstrip_sep (take (rfind_sep1 p) p)) (take (rfind_sep1 p) p)"
    by (rule rstrip_sep_prefix)
  with whole have "prefix (rstrip_sep (take (rfind_sep1 p) p)) p"
    by (rule prefix_order.trans[rotated])
  with whole show ?thesis
    by (simp add: dirname_def Let_def)
qed

lemma dirname_shorter: "dirname p \<noteq> p \<Longrightarrow> length (dirname p) < length p"
  using dirname_prefix[of p]
  by (metis prefix_length_le prefix_length_prefix le_neq_implies_less prefix_order.eq_iff)

lemma ancestors_shorter: "q \<in> set (ancestors p) \<Longrightarrow> length q < length p"
proof (induction p rule: ancestors.induct)
  case (1 p)
  show ?case
  proof (cases "dirname p = p")
    case True
    with "1.prems" show ?thesis by (simp add: ancestors.simps[of p])
  next
    case False
    then have step: "length (dirname p) < length p" by (rule dirname_shorter)
    from False "1.prems" have "q = dirname p \<or> q \<in> set (ancestors (dirname p))"
      by (simp add: ancestors.simps[of p])
    then show ?thesis
    proof
      assume "q = dirname p" with step show ?thesis by simp
    next
      assume "q \<in> set (ancestors (dirname p))"
      with "1.IH"[OF False] have "length q < length (dirname p)" by simp
      with step show ?thesis by simp
    qed
  qed
qed

lemma is_parent_irrefl: "\<not> is_parent p p"
  using ancestors_shorter[of p p] by (auto simp: is_parent_def)

lemma unify_mem: "p \<in> unify S \<longleftrightarrow> p \<in> S \<and> \<not> (\<exists>q \<in> S. is_parent q p)"
  by (simp add: unify_def)

section \<open>Path unification\<close>

text \<open>
  C8: for every set \<open>S\<close> of paths, \<open>unify S\<close> is the subset of \<open>S\<close> whose members are
  not descendants of another member of \<open>S\<close>; \<open>unify\<close> is idempotent, and no element of
  \<open>unify S\<close> is a descendant of another element of \<open>unify S\<close>.
\<close>

theorem C8_unify:
  "unify S = {p \<in> S. \<not> (\<exists>q \<in> S. q \<noteq> p \<and> is_parent q p)}
   \<and> unify S \<subseteq> S
   \<and> unify (unify S) = unify S
   \<and> (\<forall>p \<in> unify S. \<forall>q \<in> unify S. \<not> is_parent q p)"
proof (intro conjI)
  show "unify S = {p \<in> S. \<not> (\<exists>q \<in> S. q \<noteq> p \<and> is_parent q p)}"
  proof (rule set_eqI)
    fix p
    show "p \<in> unify S \<longleftrightarrow> p \<in> {p \<in> S. \<not> (\<exists>q \<in> S. q \<noteq> p \<and> is_parent q p)}"
      using is_parent_irrefl[of p] by (auto simp: unify_mem)
  qed
next
  show "unify S \<subseteq> S"
    by (auto simp: unify_mem)
next
  show "unify (unify S) = unify S"
  proof (rule set_eqI)
    fix p
    show "p \<in> unify (unify S) \<longleftrightarrow> p \<in> unify S"
      by (auto simp: unify_mem)
  qed
next
  show "\<forall>p \<in> unify S. \<forall>q \<in> unify S. \<not> is_parent q p"
    by (auto simp: unify_mem)
qed

theorem C8_unify_witness:
  "unify {''/a'', ''/a/b'', ''/c''} = {''/a'', ''/c''}
   \<and> unify (unify {''/a'', ''/a/b'', ''/c''}) = unify {''/a'', ''/a/b'', ''/c''}
   \<and> \<not> is_parent ''/a'' ''/c'' \<and> \<not> is_parent ''/c'' ''/a''"
proof -
  let ?S = "{''/a'', ''/a/b'', ''/c''}"
  have u: "unify ?S = {''/a'', ''/c''}"
    by code_simp
  note t = C8_unify[of ?S]
  from t have idem: "unify (unify ?S) = unify ?S"
    by (elim conjE)
  from t have "\<forall>p \<in> unify ?S. \<forall>q \<in> unify ?S. \<not> is_parent q p"
    by (elim conjE)
  then have anti: "\<forall>p \<in> {''/a'', ''/c''}. \<forall>q \<in> {''/a'', ''/c''}. \<not> is_parent q p"
    by (simp only: u)
  from anti have "\<not> is_parent ''/a'' ''/c''" and "\<not> is_parent ''/c'' ''/a''"
    by blast+
  with u idem show ?thesis
    by (intro conjI)
qed

section \<open>Row lookup\<close>

lemma rows_slice:
  "map (\<lambda>r. xs ! nat r) (filter (\<lambda>r. 0 \<le> r \<and> r < int (length xs)) [a..b])
     = drop (nat a) (take (nat (b + 1)) xs)"
proof (induction a b rule: upto.induct)
  case (1 i j)
  show ?case
  proof (cases "i \<le> j")
    case False
    then have "nat (j + 1) \<le> nat i" by simp
    with False show ?thesis by simp
  next
    case True
    let ?T = "take (nat (j + 1)) xs"
    from True have rec: "[i..j] = i # [i + 1..j]" by (rule upto_rec1)
    from True "1.IH" have IH: "map (\<lambda>r. xs ! nat r) (filter (\<lambda>r. 0 \<le> r \<and> r < int (length xs)) [i + 1..j])
        = drop (nat (i + 1)) ?T" by simp
    consider (neg) "i < 0" | (mid) "0 \<le> i" "i < int (length xs)" | (high) "int (length xs) \<le> i"
      by linarith
    then show ?thesis
    proof cases
      case neg
      then have "nat (i + 1) = nat i" by simp
      with neg IH show ?thesis by (simp add: rec)
    next
      case mid
      with True have lt: "nat i < length ?T" by simp
      have "drop (nat i) ?T = ?T ! nat i # drop (Suc (nat i)) ?T"
        using lt by (rule Cons_nth_drop_Suc[symmetric])
      moreover have "?T ! nat i = xs ! nat i" using lt by simp
      moreover from mid have "nat (i + 1) = Suc (nat i)" by simp
      ultimately show ?thesis using mid IH by (simp add: rec)
    next
      case high
      then have "length ?T \<le> nat i" "length ?T \<le> nat (i + 1)" by simp_all
      with high IH show ?thesis by (simp add: rec)
    qed
  qed
qed

lemma map_filter_index_at:
  "List.map_filter (index_at st) rows
     = map (\<lambda>row. lookup st ! nat row) (filter (\<lambda>row. 0 \<le> row \<and> row < int (length (lookup st))) rows)"
  by (induction rows) (simp_all add: index_at_def)

text \<open>
  C9: for every snapshot and zero-based row \<open>r\<close>, the row lookup returns the node at
  row \<open>r\<close> of the flat index when \<open>r\<close> is in range and none when it is out of range
  (never an error); and for every contiguous row interval, the range query yields
  exactly the resolvable nodes in row order, silently skipping the rows that resolve to
  none: the visual-mode query between the marks is the slice of the flat index from row
  \<open>mark_lo - 1\<close> up to, not including, row \<open>mark_hi\<close>.
\<close>

theorem C9_row_lookup:
  "(0 \<le> r \<and> r < int (length (lookup st)) \<longrightarrow> index_at st r = Some (lookup st ! nat r))
   \<and> (\<not> (0 \<le> r \<and> r < int (length (lookup st))) \<longrightarrow> index_at st r = None)
   \<and> priv_indices nvim st True
       = map (\<lambda>row. lookup st ! nat row)
           (filter (\<lambda>row. 0 \<le> row \<and> row < int (length (lookup st)))
              [mark_lo nvim - 1 .. mark_hi nvim - 1])
   \<and> priv_indices nvim st True
       = drop (nat (mark_lo nvim - 1)) (take (nat (mark_hi nvim)) (lookup st))"
proof (intro conjI)
  show "0 \<le> r \<and> r < int (length (lookup st)) \<longrightarrow> index_at st r = Some (lookup st ! nat r)"
    by (simp add: index_at_def)
  show "\<not> (0 \<le> r \<and> r < int (length (lookup st))) \<longrightarrow> index_at st r = None"
    by (simp add: index_at_def)
  show rows: "priv_indices nvim st True
       = map (\<lambda>row. lookup st ! nat row)
           (filter (\<lambda>row. 0 \<le> row \<and> row < int (length (lookup st)))
              [mark_lo nvim - 1 .. mark_hi nvim - 1])"
    by (simp add: priv_indices_def map_filter_index_at)
  show "priv_indices nvim st True
       = drop (nat (mark_lo nvim - 1)) (take (nat (mark_hi nvim)) (lookup st))"
    using rows_slice[of "lookup st" "mark_lo nvim - 1" "mark_hi nvim - 1"]
    by (simp add: rows)
qed

theorem C9_row_lookup_witness:
  "index_at sample_state 1 = Some (folder_node ''/r/a'')
   \<and> index_at sample_state 5 = None
   \<and> index_at sample_state (- 1) = None
   \<and> priv_indices (sample_nvim 1 [] 2) sample_state True = [folder_node ''/r/a'', file_node ''/r/c'']"
  using C9_row_lookup[of 1 sample_state "sample_nvim 1 [] 2"]
        C9_row_lookup[of 5 sample_state "sample_nvim 1 [] 2"]
        C9_row_lookup[of "- 1" sample_state "sample_nvim 1 [] 2"]
  by (simp add: sample_state_def sample_nvim_def)

section \<open>Facts about the helpers of the commands\<close>

lemma relpath_Inl: "relpath cwd p start = Inl e \<Longrightarrow> e = ValueError \<and> p = []"
  by (simp add: relpath_def Let_def split: if_splits list.splits)

lemma relpath_ok: "p \<noteq> [] \<Longrightarrow> \<exists>t. relpath cwd p start = Inr t"
  by (simp add: relpath_def Let_def split: list.splits)

lemma display_path_Inl: "priv_display_path P p st = Inl e \<Longrightarrow> e = ValueError \<and> p = []"
  by (auto simp: priv_display_path_def dest: relpath_Inl split: sum.splits)

lemma display_path_ok: "p \<noteq> [] \<Longrightarrow> \<exists>t. priv_display_path P p st = Inr t"
  using relpath_ok[of p "p_cwd P" "path (root st)"]
  by (auto simp: priv_display_path_def)

lemma collect_Inl: "collect (map f xs) = Inl e \<Longrightarrow> \<exists>x \<in> set xs. f x = Inl e"
  by (induction xs) (auto split: sum.splits)

lemma collect_ok:
  "(\<And>x. x \<in> set xs \<Longrightarrow> \<exists>v. f x = Inr v)
     \<Longrightarrow> \<exists>vs. collect (map f xs) = Inr vs \<and> list_all2 (\<lambda>x v. f x = Inr v) xs vs"
proof (induction xs)
  case Nil
  then show ?case by simp
next
  case (Cons x xs)
  from Cons.prems obtain v where v: "f x = Inr v" by auto
  from Cons obtain vs where vs: "collect (map f xs) = Inr vs" "list_all2 (\<lambda>x v. f x = Inr v) xs vs"
    by auto
  from v vs show ?case by simp
qed

section \<open>The un-awaited call of \<open>_index\<close>\<close>

text \<open>
  Reading \<open>path\<close> or \<open>mode\<close> of what \<open>_index\<close> returns raises \<open>AttributeError\<close>, and so
  does \<open>_find_dest\<close> on it.
\<close>

lemma index_attributes:
  "truthy (priv_index nvim st)"
  "attr_path (priv_index nvim st) = Inl AttributeError"
  "attr_mode (priv_index nvim st) = Inl AttributeError"
  "directory_of (priv_index nvim st) = Inl AttributeError"
  "priv_find_dest src (priv_index nvim st) = Inl AttributeError"
  by (simp_all add: priv_index_def truthy_def attr_path_def attr_mode_def is_dir_def
        directory_of_def priv_find_dest_def)

text \<open>
  So collapse, create and rename raise on every call, before any prompt, file system
  action or state transition; cut and copy raise whenever something is selected; and
  delete raises whenever nothing is selected.
\<close>

lemma collapse_raises: "c_collapse P nvim fs st cfg = (Inl AttributeError, fs, [])"
  by (simp add: c_collapse_def index_attributes)

lemma new_raises: "c_new P nvim fs st cfg = (Inl AttributeError, fs, [])"
  by (simp add: c_new_def index_attributes)

lemma rename_raises: "c_rename P nvim fs st cfg = (Inl AttributeError, fs, [])"
  by (simp add: c_rename_def index_attributes)

lemma operation_raises:
  assumes "selection st \<noteq> {}" and "p_iter P (selection st) \<noteq> []"
  shows "priv_operation P nvim fs st cfg name action = (Inl AttributeError, fs, [])"
proof -
  from assms(2) obtain s rest where "p_iter P (selection st) = s # rest"
    by (cases "p_iter P (selection st)") simp_all
  with assms(1) show ?thesis
    by (simp add: priv_operation_def index_attributes)
qed

lemma delete_raises:
  assumes "selection st = {}"
  shows "c_delete P nvim fs st cfg = (Inl AttributeError, fs, [])"
  using assms by (simp add: c_delete_def index_attributes)

text \<open>
  With a selection, delete does not read the node: it shows the prompt when every path
  to display is non-empty, and otherwise \<open>relpath\<close> raises \<open>ValueError\<close> before it.
\<close>

lemma delete_with_selection:
  assumes "selection st \<noteq> {}"
  shows "c_delete P nvim fs st cfg =
     (let unified = p_iter P (unify (selection st))
      in (case collect (map (\<lambda>p. priv_display_path P p st) unified) of
            Inl e \<Rightarrow> (Inl e, fs, [])
          | Inr shown \<Rightarrow>
              let asked =
                    Confirm (wastebasket_sign @ ''  '' @ str_join [CHR 0x0A] shown @ ''?'')
                      (''&Yes'' @ [CHR 0x0A] @ ''&No'' @ [CHR 0x0A]) 2
              in if confirm_reply nvim = 1 then
                   let (pending, fs') = fs_remove P unified fs;
                       paths = dirname ` set unified;
                       new_state = forward P fs' st cfg None (Some paths) None None None
                   in (finally_return pending new_state, fs',
                       [asked, Forward None (Some paths) None None None,
                        KillBuffers (selection st)])
                 else (Inr st, fs, [asked])))"
  using assms by (simp add: c_delete_def Let_def)

lemma display_all:
  assumes "[] \<notin> set ps"
  shows "\<exists>shown. collect (map (\<lambda>p. priv_display_path P p st) ps) = Inr shown"
proof -
  have "\<exists>v. priv_display_path P x st = Inr v" if "x \<in> set ps" for x
  proof -
    from that assms have "x \<noteq> []"
      by auto
    then show ?thesis
      by (rule display_path_ok)
  qed
  then have "\<exists>vs. collect (map (\<lambda>p. priv_display_path P p st) ps) = Inr vs
                 \<and> list_all2 (\<lambda>x v. priv_display_path P x st = Inr v) ps vs"
    by (rule collect_ok)
  then show ?thesis
    by (elim exE conjE) (rule exI)
qed

section \<open>The confirmation gate of delete\<close>

text \<open>
  C6: for every delete invocation in which the user answers anything other than yes to
  the confirmation prompt, the returned state equals the input state (in particular the
  selection and the expansion set are unchanged) and no file system removal is
  performed. The prompt is reached only when something is selected, and it is reached
  when, besides, no path to display is empty (\<open>relpath\<close> raises on the empty path);
  the only call made is the prompt, and the file system handed back is the one handed
  in, whatever remove would do.
\<close>

theorem C6_delete_declined:
  assumes "confirm_reply nvim \<noteq> 1"
    and "selection st \<noteq> {}"
    and "[] \<notin> set (p_iter P (unify (selection st)))"
  shows "\<exists>prompt. c_delete P nvim fs st cfg
           = (Inr st, fs, [Confirm prompt (''&Yes'' @ [CHR 0x0A] @ ''&No'' @ [CHR 0x0A]) 2])"
proof -
  from display_all[OF assms(3), of P st] obtain shown where
    "collect (map (\<lambda>p. priv_display_path P p st) (p_iter P (unify (selection st)))) = Inr shown"
    by (elim exE) (rule that)
  with assms(1) have "c_delete P nvim fs st cfg
      = (Inr st, fs,
         [Confirm (wastebasket_sign @ ''  '' @ str_join [CHR 0x0A] shown @ ''?'')
            (''&Yes'' @ [CHR 0x0A] @ ''&No'' @ [CHR 0x0A]) 2])"
    by (simp add: delete_with_selection[OF assms(2)] Let_def)
  then show ?thesis
    by (intro exI)
qed

theorem C6_delete_declined_witness:
  "confirm_reply (sample_nvim 9 [] 2) = 2
   \<and> selection nested_state = {''/r/a'', ''/r/a/b''}
   \<and> p_iter nested_platform (unify (selection nested_state)) = [''/r/a'']
   \<and> c_delete nested_platform (sample_nvim 9 [] 2) crowded_fs nested_state ()
       = (Inr nested_state, crowded_fs,
          [Confirm (wastebasket_sign @ ''  a?'') (''&Yes'' @ [CHR 0x0A] @ ''&No'' @ [CHR 0x0A]) 2])"
proof -
  let ?nv = "sample_nvim 9 [] 2"
  have reply: "confirm_reply ?nv = 2"
    by (simp add: sample_nvim_def)
  then have declined: "confirm_reply ?nv \<noteq> 1"
    by simp
  have sel: "selection nested_state = {''/r/a'', ''/r/a/b''}"
    by (simp add: nested_state_def)
  then have some: "selection nested_state \<noteq> {}"
    by simp
  have it: "p_iter nested_platform (unify (selection nested_state)) = [''/r/a'']"
    by code_simp
  then have named: "[] \<notin> set (p_iter nested_platform (unify (selection nested_state)))"
    by simp
  have run: "c_delete nested_platform ?nv crowded_fs nested_state ()
       = (Inr nested_state, crowded_fs,
          [Confirm (wastebasket_sign @ ''  a?'') (''&Yes'' @ [CHR 0x0A] @ ''&No'' @ [CHR 0x0A]) 2])"
    by code_simp
  from C6_delete_declined[OF declined some named, of crowded_fs "()"] reply sel it run
  show ?thesis
    by (intro conjI)
qed

text \<open>
  The prompt is shown only when something is selected: a call that shows it has a
  non-empty selection.
\<close>

lemma prompt_needs_selection:
  assumes "Confirm prompt choices dflt \<in> set (snd (snd (c_delete P nvim fs st cfg)))"
  shows "selection st \<noteq> {}"
proof
  assume "selection st = {}"
  then have "c_delete P nvim fs st cfg = (Inl AttributeError, fs, [])"
    by (rule delete_raises)
  with assms show False
    by simp
qed

section \<open>The invalidation set of delete\<close>

text \<open>
  C4, as amended: for every delete batch (something is selected, no selected path is
  empty, and the prompt is answered yes), the invalidation set equals exactly the set
  of the parent directories of the unified source paths, that is of the selected paths
  that are not a descendant of another selected path. The amended claim says nothing
  of cut and copy.
\<close>

theorem C4_delete_invalidates_unified_parents:
  assumes "selection st \<noteq> {}"
    and "set (p_iter P (unify (selection st))) = unify (selection st)"
    and "[] \<notin> selection st"
    and "confirm_reply nvim = 1"
  shows "\<exists>asked new. c_delete P nvim fs st cfg
           = (Inr new, snd (fs_remove P (p_iter P (unify (selection st))) fs),
              [asked,
               Forward None (Some (dirname ` unify (selection st))) None None None,
               KillBuffers (selection st)])"
proof -
  let ?unified = "p_iter P (unify (selection st))"
  let ?paths = "dirname ` unify (selection st)"
  let ?fs' = "snd (fs_remove P ?unified fs)"
  let ?new = "forward P ?fs' st cfg None (Some ?paths) None None None"
  from assms(2,3) have "[] \<notin> set ?unified"
    by (simp add: unify_mem)
  from display_all[OF this, of P st] obtain shown where
    shown: "collect (map (\<lambda>p. priv_display_path P p st) ?unified) = Inr shown"
    by (elim exE) (rule that)
  let ?asked = "Confirm (wastebasket_sign @ ''  '' @ str_join [CHR 0x0A] shown @ ''?'')
                  (''&Yes'' @ [CHR 0x0A] @ ''&No'' @ [CHR 0x0A]) 2"
  have "c_delete P nvim fs st cfg
          = (Inr ?new, ?fs',
             [?asked, Forward None (Some ?paths) None None None, KillBuffers (selection st)])"
    using assms(4) shown
    by (simp add: delete_with_selection[OF assms(1)] Let_def assms(2) finally_return_def
             split: prod.splits option.splits)
  then show ?thesis
    by (intro exI)
qed

theorem C4_delete_invalidates_unified_parents_witness:
  "selection nested_state = {''/r/a'', ''/r/a/b''}
   \<and> unify (selection nested_state) = {''/r/a''}
   \<and> p_iter nested_platform (unify (selection nested_state)) = [''/r/a'']
   \<and> confirm_reply (sample_nvim 9 [] 1) = 1
   \<and> (\<exists>asked new. c_delete nested_platform (sample_nvim 9 [] 1) crowded_fs nested_state ()
           = (Inr new, crowded_fs - {''/r/a''},
              [asked, Forward None (Some {''/r''}) None None None,
               KillBuffers {''/r/a'', ''/r/a/b''}]))"
proof -
  let ?nv = "sample_nvim 9 [] 1"
  have sel: "selection nested_state = {''/r/a'', ''/r/a/b''}"
    by (simp add: nested_state_def)
  then have some: "selection nested_state \<noteq> {}"
    by simp
  from sel have named: "[] \<notin> selection nested_state"
    by simp
  have uni: "unify (selection nested_state) = {''/r/a''}"
    by code_simp
  have it: "p_iter nested_platform (unify (selection nested_state)) = [''/r/a'']"
    by code_simp
  have sound: "set (p_iter nested_platform (unify (selection nested_state)))
                 = unify (selection nested_state)"
    by (simp only: it) (simp add: uni)
  have yes: "confirm_reply ?nv = 1"
    by (simp add: sample_nvim_def)
  have parents: "dirname ` unify (selection nested_state) = {''/r''}"
    by code_simp
  have left: "snd (fs_remove nested_platform [''/r/a''] crowded_fs) = crowded_fs - {''/r/a''}"
    by (simp add: nested_platform_def sample_platform_def)
  from C4_delete_invalidates_unified_parents[OF some sound named yes, of crowded_fs "()"]
  have "\<exists>asked new. c_delete nested_platform ?nv crowded_fs nested_state ()
           = (Inr new, crowded_fs - {''/r/a''},
              [asked, Forward None (Some {''/r''}) None None None,
               KillBuffers {''/r/a'', ''/r/a/b''}])"
    by (simp only: it parents left) (simp only: sel)
  with sel uni it yes show ?thesis
    by (intro conjI)
qed

text \<open>
  Against C4 as stated (the invalidation set of delete is the set of the parents of
  the source paths): with \<open>/r/a\<close> and \<open>/r/a/b\<close> selected, delete passes the invalidation
  set \<open>{/r}\<close>; the parent \<open>/r/a\<close> of the source path \<open>/r/a/b\<close> is not in it.
\<close>

theorem C4_nested_parent_left_out:
  "selection nested_state = {''/r/a'', ''/r/a/b''}
   \<and> snd (snd (c_delete nested_platform (sample_nvim 9 [] 1) crowded_fs nested_state ())) ! 1
       = Forward None (Some {''/r''}) None None None
   \<and> dirname ''/r/a/b'' = ''/r/a''
   \<and> ''/r/a'' \<notin> {''/r''}"
  by code_simp

section \<open>Exceptions of the file system actions\<close>

text \<open>
  C2 claims that an exception raised by the file system action during a batch is
  raised again to the caller after the bookkeeping. Delete ends its \<open>finally\<close> block
  with \<open>return new_state\<close>, which drops the pending exception: with \<open>/r/a\<close> and
  \<open>/r/a/b\<close> selected, the prompt answered yes and a remove that raises \<open>OSError\<close>,
  delete returns the new snapshot and no exception.
\<close>

theorem C2_error_swallowed:
  "selection nested_state = {''/r/a'', ''/r/a/b''}
   \<and> confirm_reply (sample_nvim 9 [] 1) = 1
   \<and> fs_remove failing_platform [''/r/a''] crowded_fs = (Some OSError, crowded_fs)
   \<and> c_delete failing_platform (sample_nvim 9 [] 1) crowded_fs nested_state ()
       = (Inr (forward failing_platform crowded_fs nested_state ()
                 None (Some {''/r''}) None None None),
          crowded_fs,
          [Confirm (wastebasket_sign @ ''  a?'') (''&Yes'' @ [CHR 0x0A] @ ''&No'' @ [CHR 0x0A]) 2,
           Forward None (Some {''/r''}) None None None,
           KillBuffers {''/r/a'', ''/r/a/b''}])"
  by code_simp

text \<open>
  The same holds on every input: delete never hands the \<open>OSError\<close> of remove to the
  caller.
\<close>

lemma delete_drops_action_error: "fst (c_delete P nvim fs st cfg) \<noteq> Inl OSError"
  by (auto simp: c_delete_def Let_def finally_return_def index_attributes
           split: sum.splits prod.splits option.splits if_splits
           dest!: collect_Inl display_path_Inl)

section \<open>Refusal on an existing destination\<close>

text \<open>
  C1 claims that cut, copy, create and rename refuse an existing destination by
  returning the input state and reporting the colliding pairs. With \<open>/r/a/x\<close> and
  \<open>/r/a/y\<close> selected, the cursor on \<open>/r/c\<close> and \<open>/r/x\<close>, \<open>/r/y\<close> and \<open>/r/c\<close> existing,
  all four raise \<open>AttributeError\<close>: no state is returned and nothing is reported.
\<close>

theorem C1_refusal_not_reached:
  "selection picked_state = {''/r/a/x'', ''/r/a/y''}
   \<and> index_at picked_state (cursor_row (sample_nvim 3 ''c'' 2) - 1) = Some (file_node ''/r/c'')
   \<and> fs_exists picked_platform crowded_fs ''/r/x''
   \<and> fs_exists picked_platform crowded_fs ''/r/y''
   \<and> fs_exists picked_platform crowded_fs ''/r/c''
   \<and> c_cut picked_platform (sample_nvim 3 ''c'' 2) crowded_fs picked_state ()
       = (Inl AttributeError, crowded_fs, [])
   \<and> c_copy picked_platform (sample_nvim 3 ''c'' 2) crowded_fs picked_state ()
       = (Inl AttributeError, crowded_fs, [])
   \<and> c_new picked_platform (sample_nvim 3 ''c'' 2) crowded_fs picked_state ()
       = (Inl AttributeError, crowded_fs, [])
   \<and> c_rename picked_platform (sample_nvim 3 ''c'' 2) crowded_fs picked_state ()
       = (Inl AttributeError, crowded_fs, [])"
  by code_simp

section \<open>Create\<close>

text \<open>
  C3 claims that a successful create passes an invalidation set holding the parent and
  every newly implied ancestor. Creating \<open>newdir/newfile\<close> with the cursor on the
  directory \<open>/a\<close> raises \<open>AttributeError\<close> before the prompt: nothing is created and no
  state transition is made.
\<close>

theorem C3_create_raises:
  "index_at attic_state (cursor_row (sample_nvim 1 ''newdir/newfile'' 2) - 1)
     = Some (folder_node ''/a'')
   \<and> c_new (sample_platform []) (sample_nvim 1 ''newdir/newfile'' 2) {''/a''} attic_state ()
       = (Inl AttributeError, {''/a''}, [])"
  by code_simp

section \<open>Rename\<close>

text \<open>
  C5 claims that a rename passes an invalidation set holding the old and the new
  parent and hands the old path to the buffer synchronization. Renaming \<open>/r/a/f\<close>
  under the root \<open>/r\<close> raises \<open>AttributeError\<close> before the prompt: nothing is renamed, no
  state transition is made and no buffer is closed.
\<close>

theorem C5_rename_raises:
  "index_at deep_state (cursor_row (sample_nvim 3 ''g'' 2) - 1) = Some (file_node ''/r/a/f'')
   \<and> c_rename (sample_platform []) (sample_nvim 3 ''g'' 2) {''/r/a/f''} deep_state ()
       = (Inl AttributeError, {''/r/a/f''}, [])"
  by code_simp

section \<open>Nothing selected\<close>

text \<open>
  C7 claims that cut, copy and delete with nothing selected and no node under the
  cursor return the input state and report a warning. Delete with nothing selected and
  the cursor on a row without a node raises \<open>AttributeError\<close>: no state is returned and
  nothing is reported.
\<close>

theorem C7_delete_raises:
  "selection sample_state = {}
   \<and> index_at sample_state (cursor_row (sample_nvim 9 [] 1) - 1) = None
   \<and> c_delete (sample_platform []) (sample_nvim 9 [] 1) {} sample_state ()
       = (Inl AttributeError, {}, [])"
  by code_simp

text \<open>
  Cut and copy do what C7 says: with nothing selected they return the input state,
  leave the file system alone and print the warning.
\<close>

lemma cut_copy_nothing_selected:
  assumes "selection st = {}"
  shows "c_cut P nvim fs st cfg
           = (Inr st, fs, [Print (warning_sign @ ''  -- {name}: nothing selected!'') True])"
    and "c_copy P nvim fs st cfg
           = (Inr st, fs, [Print (warning_sign @ ''  -- {name}: nothing selected!'') True])"
  using assms by (simp_all add: c_cut_def c_copy_def priv_operation_def)

section \<open>Collapse\<close>

text \<open>
  C10 claims that collapse on a folder node removes the strict descendants of the node
  from the expansion set and passes them as the invalidation set. With the cursor on
  the folder \<open>/r/a\<close>, whose descendant \<open>/r/a/b\<close> is expanded, collapse raises
  \<open>AttributeError\<close>: no state is returned and no state transition is made.
\<close>

theorem C10_collapse_raises:
  "index_at sample_state (cursor_row (sample_nvim 2 [] 2) - 1) = Some (folder_node ''/r/a'')
   \<and> ''/r/a/b'' \<in> index sample_state
   \<and> c_collapse (sample_platform []) (sample_nvim 2 [] 2) {} sample_state ()
       = (Inl AttributeError, {}, [])"
  by code_simp

end
